theory Spec2Isabelle
  imports Complex_Main "HOL-Library.Word" "HOL-Library.Multiset" "HOL-Library.List_Lexorder"
begin

unbundle bit_operations_syntax

section \<open>Python values used by \<open>object_detector.py\<close>\<close>

text \<open>
  A Python \<open>str\<close> is a sequence of Unicode code points; it is modelled as a list of
  naturals, ordered lexicographically by code point as Python compares strings.
  \<open>py\<close> turns an ASCII literal into such a string.
\<close>

type_synonym pystr = "nat list"

type_synonym byte = "8 word"

definition py :: "string \<Rightarrow> pystr" where
  "py s = map of_char s"

datatype error = ValueError | IndexError | UnicodeEncodeError

subsection \<open>\<open>bytes(s, "utf8")\<close>\<close>

text \<open>
  The UTF-8 codec of Python: one to four bytes per code point; a surrogate code point
  (U+D800 to U+DFFF) cannot be encoded and raises \<open>UnicodeEncodeError\<close>.
\<close>

definition is_surrogate :: "nat \<Rightarrow> bool" where
  "is_surrogate c = (55296 \<le> c \<and> c \<le> 57343)"

definition utf8_char :: "nat \<Rightarrow> byte list" where
  "utf8_char c =
     (if c < 128 then [of_nat c]
      else if c < 2048 then [of_nat (192 + c div 64), of_nat (128 + c mod 64)]
      else if c < 65536 then
        [of_nat (224 + c div 4096), of_nat (128 + c div 64 mod 64), of_nat (128 + c mod 64)]
      else
        [of_nat (240 + c div 262144), of_nat (128 + c div 4096 mod 64),
         of_nat (128 + c div 64 mod 64), of_nat (128 + c mod 64)])"

fun utf8_encode :: "pystr \<Rightarrow> error + byte list" where
  "utf8_encode [] = Inr []"
| "utf8_encode (c # cs) =
     (if is_surrogate c then Inl UnicodeEncodeError
      else (case utf8_encode cs of
              Inl e \<Rightarrow> Inl e
            | Inr bs \<Rightarrow> Inr (utf8_char c @ bs)))"

subsection \<open>\<open>hashlib.sha1(b).hexdigest()\<close>\<close>

text \<open>
  The standard library's SHA-1 (FIPS 180-4): the message is padded to a multiple of 64
  bytes, each block updates five 32-bit words in 80 rounds, and the digest is printed
  as 40 lower-case hexadecimal digits.
\<close>

type_synonym w32 = "32 word"

definition length_bytes :: "64 word \<Rightarrow> byte list" where
  "length_bytes n = map (\<lambda>i. ucast (drop_bit (8 * (7 - i)) n)) [0..<8]"

definition sha1_pad :: "byte list \<Rightarrow> byte list" where
  "sha1_pad m =
     m @ [128] @ replicate ((119 - length m mod 64) mod 64) 0 @ length_bytes (of_nat (8 * length m))"

definition be_word :: "byte list \<Rightarrow> w32" where
  "be_word bs = foldl (\<lambda>w b. push_bit 8 w OR ucast b) 0 bs"

fun chunks :: "nat \<Rightarrow> nat \<Rightarrow> 'a list \<Rightarrow> 'a list list" where
  "chunks 0 k xs = []"
| "chunks (Suc n) k xs = take k xs # chunks n k (drop k xs)"

fun sha1_schedule :: "nat \<Rightarrow> w32 list \<Rightarrow> w32 list" where
  "sha1_schedule 0 w = w"
| "sha1_schedule (Suc n) w =
     (let i = length w
      in sha1_schedule n
           (w @ [word_rotl 1 (w ! (i - 3) XOR w ! (i - 8) XOR w ! (i - 14) XOR w ! (i - 16))]))"

type_synonym sha1_state = "w32 \<times> w32 \<times> w32 \<times> w32 \<times> w32"

definition sha1_round :: "w32 list \<Rightarrow> sha1_state \<Rightarrow> nat \<Rightarrow> sha1_state" where
  "sha1_round w s i =
     (case s of (a, b, c, d, e) \<Rightarrow>
        let f = (if i < 20 then (b AND c) OR (NOT b AND d)
                 else if i < 40 then b XOR c XOR d
                 else if i < 60 then (b AND c) OR (b AND d) OR (c AND d)
                 else b XOR c XOR d);
            k = (if i < 20 then 1518500249
                 else if i < 40 then 1859775393
                 else if i < 60 then 2400959708
                 else 3395469782)
        in (word_rotl 5 a + f + e + k + w ! i, a, word_rotl 30 b, c, d))"

definition sha1_block :: "sha1_state \<Rightarrow> byte list \<Rightarrow> sha1_state" where
  "sha1_block h blk =
     (let w = sha1_schedule 64 (map be_word (chunks 16 4 blk))
      in case (h, foldl (sha1_round w) h [0..<80]) of
           ((h0, h1, h2, h3, h4), (a, b, c, d, e)) \<Rightarrow> (h0 + a, h1 + b, h2 + c, h3 + d, h4 + e))"

definition sha1 :: "byte list \<Rightarrow> sha1_state" where
  "sha1 m =
     (let p = sha1_pad m
      in foldl sha1_block (1732584193, 4023233417, 2562383102, 271733878, 3285377520)
           (chunks (length p div 64) 64 p))"

definition hex_digit :: "nat \<Rightarrow> nat" where
  "hex_digit n = (if n < 10 then 48 + n else 87 + n)"

definition hex_word :: "w32 \<Rightarrow> pystr" where
  "hex_word w = map (\<lambda>i. hex_digit (unat (drop_bit (4 * (7 - i)) w AND 15))) [0..<8]"

definition sha1_hexdigest :: "byte list \<Rightarrow> pystr" where
  "sha1_hexdigest m =
     (case sha1 m of (h0, h1, h2, h3, h4) \<Rightarrow>
        hex_word h0 @ hex_word h1 @ hex_word h2 @ hex_word h3 @ hex_word h4)"

subsection \<open>\<open>str\<close> of an integer and \<open>str.format\<close>\<close>

text \<open>
  \<open>str_int\<close> is Python's decimal rendering of an \<open>int\<close>, the form in which
  \<open>'{}'.format\<close> prints an integer coordinate.
\<close>

fun str_nat :: "nat \<Rightarrow> pystr" where
  "str_nat n = (if n < 10 then [48 + n] else str_nat (n div 10) @ [48 + n mod 10])"

declare str_nat.simps [simp del]

definition str_int :: "int \<Rightarrow> pystr" where
  "str_int i = (if i < 0 then 45 # str_nat (nat (- i)) else str_nat (nat i))"

text \<open>
  \<open>format_auto f i args\<close> is \<open>f.format(*args)\<close> for a format string whose replacement
  fields are all the automatically numbered \<open>{}\<close>: the fields take the positional
  arguments in order, starting at index \<open>i\<close>; a field beyond the last argument raises
  \<open>IndexError\<close>, and arguments that no field uses are ignored. The arguments are given
  already rendered.
\<close>

fun format_auto :: "pystr \<Rightarrow> nat \<Rightarrow> pystr list \<Rightarrow> error + pystr" where
  "format_auto [] i args = Inr []"
| "format_auto [c] i args = Inr [c]"
| "format_auto (c # c' # cs) i args =
     (if c = 123 \<and> c' = 125 then
        (if i < length args then
           (case format_auto cs (Suc i) args of
              Inl e \<Rightarrow> Inl e
            | Inr r \<Rightarrow> Inr (args ! i @ r))
         else Inl IndexError)
      else (case format_auto (c' # cs) i args of
              Inl e \<Rightarrow> Inl e
            | Inr r \<Rightarrow> Inr (c # r)))"

section \<open>The detection identity function\<close>

text \<open>
  \<open>AxisAlignedBoundingBox\<close>: the two vertices as \<open>tolist()\<close> gives them. The
  coordinates are of a type \<open>'c\<close> that \<open>fmt\<close> renders the way \<open>'{}'.format\<close> does.
\<close>

record 'c bbox =
  min_vertex :: "'c list"
  max_vertex :: "'c list"

text \<open>The local variable \<open>hashable\<close> of \<open>_gen_detection_uuid\<close>.\<close>

definition detection_hashable ::
  "('c \<Rightarrow> pystr) \<Rightarrow> ('l \<Rightarrow> pystr) \<Rightarrow> pystr \<Rightarrow> 'c bbox \<Rightarrow> 'l list \<Rightarrow> error + pystr" where
  "detection_hashable fmt str_of data_uuid bbox labels =
     (case format_auto (py ''{}{}{}{}'') 0 (map fmt (min_vertex bbox @ max_vertex bbox)) of
        Inl e \<Rightarrow> Inl e
      | Inr s \<Rightarrow> Inr (data_uuid @ s @ concat (sort (map str_of labels))))"

definition gen_detection_uuid ::
  "('c \<Rightarrow> pystr) \<Rightarrow> ('l \<Rightarrow> pystr) \<Rightarrow> pystr \<Rightarrow> 'c bbox \<Rightarrow> 'l list \<Rightarrow> error + pystr" where
  "gen_detection_uuid fmt str_of data_uuid bbox labels =
     (case detection_hashable fmt str_of data_uuid bbox labels of
        Inl e \<Rightarrow> Inl e
      | Inr hashable \<Rightarrow>
          (case utf8_encode hashable of
             Inl e \<Rightarrow> Inl e
           | Inr b \<Rightarrow> Inr (sha1_hexdigest b)))"

section \<open>Data elements, detection and classification elements\<close>

text \<open>
  A \<open>DataElement\<close> as \<open>detect_objects\<close> reads it: its content type and
  \<open>str(data_element.uuid())\<close>.
\<close>

record data_element =
  content_type :: pystr
  uuid :: pystr

text \<open>
  Modelled from the spec: the classification and detection elements and the two
  factories (\<open>ClassificationElementFactory\<close>, \<open>DetectionElementFactory\<close>), whose
  code is not part of \<open>object_detector.py\<close>. \<open>new_classification(type_tag, id)\<close> and
  \<open>new_detection(id)\<close> make an element that holds the identifier and no content;
  \<open>set_classification(label_map)\<close> and \<open>set_detection(bbox, classification)\<close> store
  their arguments in the element and return it. A classification map is a dictionary
  from labels to probabilities: an association list in insertion order.
\<close>

record ('l, 'p) classification_element =
  type_name :: pystr
  classification_uuid :: pystr
  classification :: "('l \<times> 'p) list option"

record ('c, 'l, 'p) detection_element =
  detection_uuid :: pystr
  detection :: "('c bbox \<times> ('l, 'p) classification_element) option"

definition new_classification :: "pystr \<Rightarrow> pystr \<Rightarrow> ('l, 'p) classification_element" where
  "new_classification type_tag u =
     \<lparr>type_name = type_tag, classification_uuid = u, classification = None\<rparr>"

definition set_classification ::
  "('l, 'p) classification_element \<Rightarrow> ('l \<times> 'p) list \<Rightarrow> ('l, 'p) classification_element" where
  "set_classification ce m = ce\<lparr>classification := Some m\<rparr>"

definition new_detection :: "pystr \<Rightarrow> ('c, 'l, 'p) detection_element" where
  "new_detection u = \<lparr>detection_uuid = u, detection = None\<rparr>"

definition set_detection ::
  "('c, 'l, 'p) detection_element \<Rightarrow> 'c bbox \<Rightarrow> ('l, 'p) classification_element
     \<Rightarrow> ('c, 'l, 'p) detection_element" where
  "set_detection de b ce = de\<lparr>detection := Some (b, ce)\<rparr>"

text \<open>\<open>c_map.keys()\<close>\<close>

definition keys :: "('l \<times> 'p) list \<Rightarrow> 'l list" where
  "keys c_map = map fst c_map"

section \<open>\<open>ObjectDetector\<close>\<close>

type_synonym ('c, 'l, 'p) raw_detection = "'c bbox \<times> ('l \<times> 'p) list"

text \<open>
  The methods of a detector that \<open>detect_objects\<close> calls on \<open>self\<close>:
  \<open>valid_content_types\<close>, \<open>is_valid_element\<close> and the abstract \<open>_detect_objects\<close>
  (here \<open>u_detect_objects\<close>), which returns \<open>None\<close> or the pairs it iterates over.
\<close>

record ('c, 'l, 'p) object_detector =
  valid_content_types :: "pystr set"
  is_valid_element :: "data_element \<Rightarrow> bool"
  u_detect_objects :: "data_element \<Rightarrow> ('c, 'l, 'p) raw_detection list option"

text \<open>
  Modelled from the spec: the Content Validator capability (\<open>ContentTypeValidator\<close>),
  whose code is not part of \<open>object_detector.py\<close>. \<open>is_valid_element\<close> of a validator
  that does not override it tells whether the content type of the data is one of
  \<open>valid_content_types()\<close>; \<open>raise_valid_element(data)\<close> fails with \<open>ValueError\<close>
  if \<open>is_valid_element(data)\<close> is false.
\<close>

definition content_type_is_valid :: "pystr set \<Rightarrow> data_element \<Rightarrow> bool" where
  "content_type_is_valid types d = (content_type d \<in> types)"

definition raise_valid_element ::
  "('c, 'l, 'p) object_detector \<Rightarrow> data_element \<Rightarrow> error + data_element" where
  "raise_valid_element det d = (if is_valid_element det d then Inr d else Inl ValueError)"

text \<open>
  What a run of \<open>detect_objects\<close> does to its collaborators: the call of
  \<open>_detect_objects\<close> and the calls of the two factories, in order.
\<close>

datatype event =
    RawDetection data_element
  | NewClassification pystr pystr
  | NewDetection pystr

text \<open>
  The body of \<open>detect_objects\<close> contains \<open>yield\<close>, so \<open>detect_objects\<close> is a
  generator function: a call runs none of the body and returns a generator object,
  and each \<open>next\<close> on that object runs the body up to the next \<open>yield\<close>, to a
  \<open>return\<close> (which ends the iteration with \<open>StopIteration\<close>) or to an exception.
  A generator object is modelled by where its frame stands and the local variables
  it holds there.
\<close>

datatype ('c, 'l, 'p) generator =
    Created data_element
  | Suspended pystr "('c, 'l, 'p) raw_detection list"
  | Finished

datatype 'a resumed = Yield 'a | StopIteration | Raise error

definition type_str :: pystr where
  "type_str = py ''object detection classification''"

text \<open>
  The result of the call: an exception, \<open>None\<close> or an iterator, as the annotation
  \<open>Optional[Iterator[DetectionElement]]\<close> has it.
\<close>

definition detect_objects ::
  "('c, 'l, 'p) object_detector \<Rightarrow> data_element \<Rightarrow> error + ('c, 'l, 'p) generator option" where
  "detect_objects det data_element = Inr (Some (Created data_element))"

text \<open>One pass of the \<open>for\<close> loop, from taking the next pair to the \<open>yield\<close>.\<close>

fun for_dets ::
  "('c \<Rightarrow> pystr) \<Rightarrow> ('l \<Rightarrow> pystr) \<Rightarrow> pystr \<Rightarrow> ('c, 'l, 'p) raw_detection list \<Rightarrow> event list
     \<Rightarrow> ('c, 'l, 'p) detection_element resumed \<times> ('c, 'l, 'p) generator \<times> event list" where
  "for_dets fmt str_of de_uuid [] tr = (StopIteration, Finished, tr)"
| "for_dets fmt str_of de_uuid ((bbox, c_map) # dets) tr =
     (case gen_detection_uuid fmt str_of de_uuid bbox (keys c_map) of
        Inl e \<Rightarrow> (Raise e, Finished, tr)
      | Inr det_uuid \<Rightarrow>
          (let ce = new_classification type_str det_uuid;
               ce = set_classification ce c_map;
               de = set_detection (new_detection det_uuid) bbox ce
           in (Yield de, Suspended de_uuid dets,
               tr @ [NewClassification type_str det_uuid, NewDetection det_uuid])))"

text \<open>\<open>next(gen)\<close> on the generator that \<open>detect_objects\<close> returned.\<close>

fun gen_next ::
  "('c \<Rightarrow> pystr) \<Rightarrow> ('l \<Rightarrow> pystr) \<Rightarrow> ('c, 'l, 'p) object_detector
     \<Rightarrow> ('c, 'l, 'p) generator \<times> event list
     \<Rightarrow> ('c, 'l, 'p) detection_element resumed \<times> ('c, 'l, 'p) generator \<times> event list" where
  "gen_next fmt str_of det (Created d, tr) =
     (case raise_valid_element det d of
        Inl e \<Rightarrow> (Raise e, Finished, tr)
      | Inr _ \<Rightarrow>
          (let de_uuid = uuid d
           in case u_detect_objects det d of
                None \<Rightarrow> (StopIteration, Finished, tr @ [RawDetection d])
              | Some dets \<Rightarrow> for_dets fmt str_of de_uuid dets (tr @ [RawDetection d])))"
| "gen_next fmt str_of det (Suspended de_uuid dets, tr) = for_dets fmt str_of de_uuid dets tr"
| "gen_next fmt str_of det (Finished, tr) = (StopIteration, Finished, tr)"

text \<open>
  \<open>list(gen)\<close>: \<open>next\<close> until the iteration ends; an exception leaves the list unbuilt.
\<close>

fun pending :: "('c, 'l, 'p) object_detector \<Rightarrow> ('c, 'l, 'p) generator \<Rightarrow> nat" where
  "pending det (Created d) =
     (case u_detect_objects det d of None \<Rightarrow> 1 | Some dets \<Rightarrow> Suc (length dets))"
| "pending det (Suspended de_uuid dets) = length dets"
| "pending det Finished = 0"

function list_gen ::
  "('c \<Rightarrow> pystr) \<Rightarrow> ('l \<Rightarrow> pystr) \<Rightarrow> ('c, 'l, 'p) object_detector
     \<Rightarrow> ('c, 'l, 'p) generator \<times> event list
     \<Rightarrow> (error + ('c, 'l, 'p) detection_element list) \<times> event list" where
  "list_gen fmt str_of det (g, tr) =
     (case gen_next fmt str_of det (g, tr) of
        (Raise e, g', tr') \<Rightarrow> (Inl e, tr')
      | (StopIteration, g', tr') \<Rightarrow> (Inr [], tr')
      | (Yield de, g', tr') \<Rightarrow>
          (case list_gen fmt str_of det (g', tr') of
             (Inl e, tr'') \<Rightarrow> (Inl e, tr'')
           | (Inr des, tr'') \<Rightarrow> (Inr (de # des), tr'')))"
  by pat_completeness auto

termination list_gen
proof (relation "measure (\<lambda>(fmt, str_of, det, g, tr). pending det g)", goal_cases)
  case 1
  show ?case by simp
next
  case (2 fmt str_of det g tr x r y de)
  then show ?case
    by (cases g)
       (auto simp: Let_def raise_valid_element_def
             split: sum.splits option.splits if_splits elim!: for_dets.elims [OF sym])
qed

declare list_gen.simps [simp del]

text \<open>
  What a consumer of the iterator has received when the iteration stops: the elements
  that \<open>next\<close> yielded before it ended the iteration or raised.
\<close>

function yielded ::
  "('c \<Rightarrow> pystr) \<Rightarrow> ('l \<Rightarrow> pystr) \<Rightarrow> ('c, 'l, 'p) object_detector
     \<Rightarrow> ('c, 'l, 'p) generator \<times> event list \<Rightarrow> ('c, 'l, 'p) detection_element list" where
  "yielded fmt str_of det (g, tr) =
     (case gen_next fmt str_of det (g, tr) of
        (Raise e, g', tr') \<Rightarrow> []
      | (StopIteration, g', tr') \<Rightarrow> []
      | (Yield de, g', tr') \<Rightarrow> de # yielded fmt str_of det (g', tr'))"
  by pat_completeness auto

termination yielded
proof (relation "measure (\<lambda>(fmt, str_of, det, g, tr). pending det g)", goal_cases)
  case 1
  show ?case by simp
next
  case (2 fmt str_of det g tr x r y de)
  then show ?case
    by (cases g)
       (auto simp: Let_def raise_valid_element_def
             split: sum.splits option.splits if_splits elim!: for_dets.elims [OF sym])
qed

declare yielded.simps [simp del]

section \<open>\<open>ImageMatrixObjectDetector\<close>\<close>

text \<open>
  The \<open>ImageReader\<close> held in \<open>self._image_reader\<close>, by the three methods the detector
  calls on it, and the detector itself: the reader and the abstract
  \<open>_detect_objects_matrix\<close>. A pixel matrix is a value of type \<open>'m\<close>.
\<close>

record 'm image_reader =
  reader_valid_content_types :: "pystr set"
  reader_is_valid_element :: "data_element \<Rightarrow> bool"
  load_as_matrix :: "data_element \<Rightarrow> 'm option"

record ('m, 'c, 'l, 'p) image_matrix_object_detector =
  image_reader :: "'m image_reader"
  u_detect_objects_matrix :: "'m \<Rightarrow> ('c, 'l, 'p) raw_detection list"

definition im_valid_content_types ::
  "('m, 'c, 'l, 'p) image_matrix_object_detector \<Rightarrow> pystr set" where
  "im_valid_content_types self = reader_valid_content_types (image_reader self)"

definition im_is_valid_element ::
  "('m, 'c, 'l, 'p) image_matrix_object_detector \<Rightarrow> data_element \<Rightarrow> bool" where
  "im_is_valid_element self data_element = reader_is_valid_element (image_reader self) data_element"

definition im_detect_objects ::
  "('m, 'c, 'l, 'p) image_matrix_object_detector \<Rightarrow> data_element
     \<Rightarrow> ('c, 'l, 'p) raw_detection list option" where
  "im_detect_objects self data =
     (case load_as_matrix (image_reader self) data of
        None \<Rightarrow> None
      | Some mat \<Rightarrow> Some (u_detect_objects_matrix self mat))"

text \<open>The subclass seen through the methods of \<open>ObjectDetector\<close> that it overrides.\<close>

definition as_object_detector ::
  "('m, 'c, 'l, 'p) image_matrix_object_detector \<Rightarrow> ('c, 'l, 'p) object_detector" where
  "as_object_detector self =
     \<lparr>valid_content_types = im_valid_content_types self,
      is_valid_element = im_is_valid_element self,
      u_detect_objects = im_detect_objects self\<rparr>"

subsection \<open>\<open>from_config\<close>\<close>

text \<open>
  Dictionaries are objects: a store holds them, an address names one, and two names
  of one address see each other's writes. A dictionary is an association list in
  insertion order; a value is a reference to a dictionary, an \<open>ImageReader\<close> instance
  or any other value.
\<close>

datatype ('r, 'v) pyval = Ref nat | Reader 'r | Other 'v

type_synonym ('r, 'v) dict = "(pystr \<times> ('r, 'v) pyval) list"

type_synonym ('r, 'v) store = "('r, 'v) dict list"

fun dict_get :: "('r, 'v) dict \<Rightarrow> pystr \<Rightarrow> ('r, 'v) pyval option" where
  "dict_get [] k = None"
| "dict_get ((k', v) # kvs) k = (if k' = k then Some v else dict_get kvs k)"

fun dict_set :: "('r, 'v) dict \<Rightarrow> pystr \<Rightarrow> ('r, 'v) pyval \<Rightarrow> ('r, 'v) dict" where
  "dict_set [] k v = [(k, v)]"
| "dict_set ((k', v') # kvs) k v =
     (if k' = k then (k, v) # kvs else (k', v') # dict_set kvs k v)"

text \<open>A new object is put at the first unused address.\<close>

definition alloc :: "('r, 'v) store \<Rightarrow> ('r, 'v) dict \<Rightarrow> ('r, 'v) store \<times> nat" where
  "alloc s d = (s @ [d], length s)"

text \<open>
  \<open>from_config\<close> with the caller's dictionary at address \<open>config_dict\<close>, an address
  of the store (a Python reference always names an object; the properties below
  assume \<open>config_dict < length s\<close>). \<open>dict(config_dict)\<close> allocates the copy and the
  default argument \<open>{}\<close> of \<open>get\<close> allocates an empty dictionary. The two functions
  of \<open>smqtk_core\<close> that it calls are parameters: \<open>from_config_dict\<close> builds the reader
  (or raises) from the nested configuration, and \<open>super_from_config\<close> is the inherited
  \<open>from_config\<close>; both read the store and the result is the store after the call with
  the instance or the exception.
\<close>

definition from_config ::
  "(('r, 'v) store \<Rightarrow> ('r, 'v) pyval \<Rightarrow> error + 'r)
     \<Rightarrow> (('r, 'v) store \<Rightarrow> nat \<Rightarrow> bool \<Rightarrow> error + 'i)
     \<Rightarrow> ('r, 'v) store \<Rightarrow> nat \<Rightarrow> bool \<Rightarrow> ('r, 'v) store \<times> (error + 'i)" where
  "from_config from_config_dict super_from_config s config_dict merge_default =
     (case alloc s (s ! config_dict) of (s1, copy) \<Rightarrow>
      case alloc s1 [] of (s2, dflt) \<Rightarrow>
        let cfg = (case dict_get (s2 ! copy) (py ''image_reader'') of
                     None \<Rightarrow> Ref dflt
                   | Some v \<Rightarrow> v)
        in case from_config_dict s2 cfg of
             Inl e \<Rightarrow> (s2, Inl e)
           | Inr reader \<Rightarrow>
               (let s3 = s2[copy := dict_set (s2 ! copy) (py ''image_reader'') (Reader reader)]
                in (s3, super_from_config s3 copy merge_default)))"

section \<open>Predicates used to state the properties\<close>

text \<open>A string that the UTF-8 codec accepts: it holds no surrogate code point.\<close>

definition encodable :: "pystr \<Rightarrow> bool" where
  "encodable s = list_all (\<lambda>c. \<not> is_surrogate c) s"

text \<open>
  A bounding box and labels from which an identifier can be derived: the box has two
  vertices of one dimensionality, at least 2, and the renderings of its coordinates
  and of the labels are encodable.
\<close>

definition identifiable :: "('c \<Rightarrow> pystr) \<Rightarrow> ('l \<Rightarrow> pystr) \<Rightarrow> 'c bbox \<Rightarrow> 'l list \<Rightarrow> bool" where
  "identifiable fmt str_of b L =
     (length (max_vertex b) = length (min_vertex b) \<and> 2 \<le> length (min_vertex b) \<and>
      list_all (\<lambda>c. encodable (fmt c)) (min_vertex b @ max_vertex b) \<and>
      list_all (\<lambda>l. encodable (str_of l)) L)"

text \<open>
  The identity function as the specification words it (section 4.1): the SHA-1
  hexadecimal digest of the UTF-8 bytes of the provenance string, followed by all
  the vertex components, minimum vertex first, followed by the sorted label strings.
\<close>

definition spec_derive_id ::
  "('c \<Rightarrow> pystr) \<Rightarrow> ('l \<Rightarrow> pystr) \<Rightarrow> pystr \<Rightarrow> 'c bbox \<Rightarrow> 'l list \<Rightarrow> error + pystr" where
  "spec_derive_id fmt str_of p b L =
     (case utf8_encode
             (p @ concat (map fmt (min_vertex b @ max_vertex b)) @ concat (sort (map str_of L))) of
        Inl e \<Rightarrow> Inl e
      | Inr bs \<Rightarrow> Inr (sha1_hexdigest bs))"

text \<open>
  A detection element assembled from one raw detection of the data with provenance
  string \<open>p\<close>: it holds the bounding box and a classification element that holds the
  classification map, the identifier of both elements is the one derived for the raw
  detection, and the type tag is the constant of \<open>detect_objects\<close>.
\<close>

definition assembled ::
  "('c \<Rightarrow> pystr) \<Rightarrow> ('l \<Rightarrow> pystr) \<Rightarrow> pystr \<Rightarrow> ('c, 'l, 'p) raw_detection
     \<Rightarrow> ('c, 'l, 'p) detection_element \<Rightarrow> bool" where
  "assembled fmt str_of p raw de =
     (case raw of (b, m) \<Rightarrow>
        gen_detection_uuid fmt str_of p b (keys m) = Inr (detection_uuid de) \<and>
        (case detection de of
           None \<Rightarrow> False
         | Some (b', ce) \<Rightarrow>
             b' = b \<and> classification ce = Some m \<and>
             classification_uuid ce = detection_uuid de \<and>
             type_name ce = py ''object detection classification''))"

section \<open>Properties of the identity function\<close>

lemma format_four:
  "format_auto (py ''{}{}{}{}'') 0 args =
     (if 4 \<le> length args then Inr (concat (take 4 args)) else Inl IndexError)"
proof (cases args)
  case Nil
  then show ?thesis by (simp add: py_def)
next
  case a: (Cons a as)
  show ?thesis
  proof (cases as)
    case Nil
    with a show ?thesis by (simp add: py_def)
  next
    case b: (Cons b bs)
    show ?thesis
    proof (cases bs)
      case Nil
      with a b show ?thesis by (simp add: py_def)
    next
      case c: (Cons c cs)
      show ?thesis
      proof (cases cs)
        case Nil
        with a b c show ?thesis by (simp add: py_def)
      next
        case (Cons d ds)
        with a b c show ?thesis by (simp add: py_def)
      qed
    qed
  qed
qed

lemma detection_hashable_eq:
  "detection_hashable fmt str_of p b L =
     (if 4 \<le> length (min_vertex b @ max_vertex b)
      then Inr (p @ concat (map fmt (take 4 (min_vertex b @ max_vertex b)))
                  @ concat (sort (map str_of L)))
      else Inl IndexError)"
  by (simp add: detection_hashable_def format_four take_map del: map_append)

lemma utf8_encode_encodable: "encodable s \<Longrightarrow> \<exists>bs. utf8_encode s = Inr bs"
  by (induction s) (auto simp: encodable_def)

lemma encodable_append [simp]: "encodable (xs @ ys) = (encodable xs \<and> encodable ys)"
  by (simp add: encodable_def)

lemma encodable_concat: "encodable (concat xss) = list_all encodable xss"
  by (induction xss) (simp_all add: encodable_def)

lemma sort_mset_cong: "mset xs = mset ys \<Longrightarrow> sort xs = sort ys"
  by (rule properties_for_sort) simp_all

lemma gen_detection_uuid_identifiable:
  assumes "encodable p" and "identifiable fmt str_of b L"
  shows "\<exists>u. gen_detection_uuid fmt str_of p b L = Inr u"
proof -
  let ?cs = "min_vertex b @ max_vertex b"
  let ?h = "p @ concat (map fmt (take 4 ?cs)) @ concat (sort (map str_of L))"
  from assms(2) have four: "4 \<le> length ?cs" by (simp add: identifiable_def)
  then have h: "detection_hashable fmt str_of p b L = Inr ?h"
    by (simp only: detection_hashable_eq if_True)
  from assms(2) have "list_all (\<lambda>c. encodable (fmt c)) (take 4 ?cs)"
    unfolding list_all_iff identifiable_def by (meson in_set_takeD)
  then have coords: "encodable (concat (map fmt (take 4 ?cs)))"
    by (simp add: encodable_concat list_all_iff)
  from assms(2) have labels: "encodable (concat (sort (map str_of L)))"
    by (simp add: encodable_concat list_all_iff identifiable_def)
  from assms(1) coords labels have "encodable ?h" by simp
  then obtain bs where "utf8_encode ?h = Inr bs"
    using utf8_encode_encodable by blast
  with h show ?thesis by (simp add: gen_detection_uuid_def)
qed

lemma gen_detection_uuid_mset:
  assumes "mset L = mset L'"
  shows "gen_detection_uuid fmt str_of p b L = gen_detection_uuid fmt str_of p b L'"
proof -
  from assms have "mset (map str_of L) = mset (map str_of L')" by simp
  then have "sort (map str_of L) = sort (map str_of L')" by (rule sort_mset_cong)
  then show ?thesis by (simp only: gen_detection_uuid_def detection_hashable_def)
qed

lemma concat_map_take4_update:
  assumes "4 \<le> length xs" and "i < 4"
  shows "(concat (map f (take 4 (xs[i := y]))) = concat (map f (take 4 xs))) = (f y = f (xs ! i))"
proof -
  from assms(1) obtain a b c d rest where xs: "xs = a # b # c # d # rest"
    by (auto simp: numeral_eq_Suc Suc_le_length_iff)
  from assms(2) have "i = 0 \<or> i = 1 \<or> i = 2 \<or> i = 3" by arith
  then show ?thesis using xs by (auto simp: numeral_eq_Suc)
qed

text \<open>
  C3, as amended. \<open>_gen_detection_uuid\<close> returns an identifier for every provenance
  string, every bounding box of dimensionality at least 2 and every label collection,
  provided that none of the strings it concatenates (the provenance string, the
  rendered coordinates, the label strings) holds a surrogate code point.
\<close>

theorem gen_detection_uuid_returns:
  assumes "length (max_vertex b) = length (min_vertex b)" and "2 \<le> length (min_vertex b)"
    and "encodable p"
    and "list_all (\<lambda>c. encodable (fmt c)) (min_vertex b @ max_vertex b)"
    and "list_all (\<lambda>l. encodable (str_of l)) L"
  shows "\<exists>u. gen_detection_uuid fmt str_of p b L = Inr u"
proof -
  from assms(1,2,4,5) have "identifiable fmt str_of b L"
    by (simp add: identifiable_def)
  with assms(3) show ?thesis by (rule gen_detection_uuid_identifiable)
qed

theorem gen_detection_uuid_returns_witness:
  "length (max_vertex \<lparr>min_vertex = [0 :: int, 0], max_vertex = [10, 10]\<rparr>) =
     length (min_vertex \<lparr>min_vertex = [0 :: int, 0], max_vertex = [10, 10]\<rparr>) \<and>
   encodable (py ''abc123'') \<and>
   (\<exists>u. gen_detection_uuid str_int (\<lambda>l. l) (py ''abc123'')
          \<lparr>min_vertex = [0, 0], max_vertex = [10, 10]\<rparr> [py ''cat'', py ''dog''] = Inr u)"
  using gen_detection_uuid_returns
    [where b = "\<lparr>min_vertex = [0, 0], max_vertex = [10, 10]\<rparr>" and p = "py ''abc123''"
       and fmt = str_int and L = "[py ''cat'', py ''dog'']" and str_of = "\<lambda>l. l"]
  by (simp add: encodable_def py_def str_int_def str_nat.simps is_surrogate_def)

text \<open>
  C3 as stated fails: for a box of dimensionality 1 the format string has more
  fields than there are coordinates, and \<open>_gen_detection_uuid\<close> raises \<open>IndexError\<close>.
\<close>

theorem gen_detection_uuid_raises_1d:
  "gen_detection_uuid str_int (\<lambda>l. l) (py ''abc123'')
     \<lparr>min_vertex = [0], max_vertex = [10]\<rparr> [py ''cat'', py ''dog''] = Inl IndexError"
  by (simp add: gen_detection_uuid_def detection_hashable_def py_def)

text \<open>
  C4, as amended. For a bounding box of dimensionality 2, \<open>_gen_detection_uuid\<close>
  gives what the specification's identity function gives: the SHA-1 hexadecimal
  digest of the UTF-8 bytes of the provenance string, the four rendered vertex
  components (minimum vertex, then maximum vertex) and the sorted label strings,
  concatenated with no separator.
\<close>

theorem gen_detection_uuid_2d:
  assumes "length (min_vertex b) = 2" and "length (max_vertex b) = 2"
  shows "gen_detection_uuid fmt str_of p b L = spec_derive_id fmt str_of p b L"
  using assms by (simp add: gen_detection_uuid_def spec_derive_id_def detection_hashable_eq)

theorem gen_detection_uuid_2d_witness:
  "length (min_vertex \<lparr>min_vertex = [0 :: int, 0], max_vertex = [10, 10]\<rparr>) = 2 \<and>
   length (max_vertex \<lparr>min_vertex = [0 :: int, 0], max_vertex = [10, 10]\<rparr>) = 2 \<and>
   gen_detection_uuid str_int (\<lambda>l. l) (py ''abc123'')
     \<lparr>min_vertex = [0, 0], max_vertex = [10, 10]\<rparr> [py ''dog'', py ''cat''] =
   spec_derive_id str_int (\<lambda>l. l) (py ''abc123'')
     \<lparr>min_vertex = [0, 0], max_vertex = [10, 10]\<rparr> [py ''dog'', py ''cat'']"
  using gen_detection_uuid_2d
    [where b = "\<lparr>min_vertex = [0, 0], max_vertex = [10, 10]\<rparr>" and p = "py ''abc123''"
       and fmt = str_int and L = "[py ''dog'', py ''cat'']" and str_of = "\<lambda>l. l"]
  by simp

text \<open>
  C4 as stated fails outside dimensionality 2. For a box of dimensionality 1 the
  specification's function has a digest to give and \<open>_gen_detection_uuid\<close> raises
  \<open>IndexError\<close>.
\<close>

theorem gen_detection_uuid_1d_differs:
  "gen_detection_uuid str_int (\<lambda>l. l) (py ''abc123'')
     \<lparr>min_vertex = [5], max_vertex = [7]\<rparr> [py ''cat''] \<noteq>
   spec_derive_id str_int (\<lambda>l. l) (py ''abc123'')
     \<lparr>min_vertex = [5], max_vertex = [7]\<rparr> [py ''cat'']"
proof -
  let ?b = "\<lparr>min_vertex = [5 :: int], max_vertex = [7]\<rparr>"
  let ?h = "py ''abc123'' @ concat (map str_int (min_vertex ?b @ max_vertex ?b))
              @ concat (sort (map (\<lambda>l. l) [py ''cat'']))"
  have "encodable ?h"
    by (simp add: encodable_def py_def str_int_def str_nat.simps is_surrogate_def)
  then obtain bs where "utf8_encode ?h = Inr bs"
    using utf8_encode_encodable by blast
  then have spec: "spec_derive_id str_int (\<lambda>l. l) (py ''abc123'') ?b [py ''cat'']
      = Inr (sha1_hexdigest bs)"
    by (simp only: spec_derive_id_def sum.case)
  have "gen_detection_uuid str_int (\<lambda>l. l) (py ''abc123'') ?b [py ''cat''] = Inl IndexError"
    by (simp add: gen_detection_uuid_def detection_hashable_def py_def)
  with spec show ?thesis by simp
qed

text \<open>
  For a box of dimensionality 3 the string that is hashed holds the first four of the
  six vertex components only.
\<close>

lemma detection_hashable_3d:
  "detection_hashable str_int (\<lambda>l. l) (py ''abc123'')
     \<lparr>min_vertex = [0, 0, 0], max_vertex = [1, 1, 1]\<rparr> [py ''cat''] =
   Inr (py ''abc1230001cat'')"
  by (simp add: detection_hashable_eq py_def str_int_def str_nat.simps)

text \<open>
  C5. The identifier does not depend on the order of the labels: two label
  collections that are permutations of each other give the same result for the same
  provenance string and bounding box. The function is pure: it is a function of its
  three arguments, so the same arguments give the same identifier at every call.
\<close>

theorem gen_detection_uuid_label_order:
  assumes "mset L = mset L'"
  shows "gen_detection_uuid fmt str_of p b L = gen_detection_uuid fmt str_of p b L'"
  using assms by (rule gen_detection_uuid_mset)

theorem gen_detection_uuid_label_order_witness:
  "mset [py ''dog'', py ''cat''] = mset [py ''cat'', py ''dog''] \<and>
   gen_detection_uuid str_int (\<lambda>l. l) (py ''abc123'')
     \<lparr>min_vertex = [0, 0], max_vertex = [10, 10]\<rparr> [py ''dog'', py ''cat''] =
   gen_detection_uuid str_int (\<lambda>l. l) (py ''abc123'')
     \<lparr>min_vertex = [0, 0], max_vertex = [10, 10]\<rparr> [py ''cat'', py ''dog'']"
proof -
  have perm: "mset [py ''dog'', py ''cat''] = mset [py ''cat'', py ''dog'']"
    by (simp add: add_mset_commute)
  from perm gen_detection_uuid_label_order [OF perm] show ?thesis
    by (simp only: simp_thms)
qed

text \<open>
  C6, as amended. For a bounding box with at least four vertex components the
  string that is hashed changes when only the provenance string changes, and when
  only one of the first four vertex components changes to one that renders
  differently; when only the label collection changes, it changes exactly when the
  concatenation of the sorted label strings changes.
\<close>

theorem detection_hashable_sensitivity:
  assumes "4 \<le> length (min_vertex b @ max_vertex b)"
  shows "((detection_hashable fmt str_of p' b L = detection_hashable fmt str_of p b L) = (p' = p)) \<and>
         (i < 4 \<and> min_vertex b' @ max_vertex b' = (min_vertex b @ max_vertex b)[i := c] \<longrightarrow>
            (detection_hashable fmt str_of p b' L = detection_hashable fmt str_of p b L)
              = (fmt c = fmt ((min_vertex b @ max_vertex b) ! i))) \<and>
         ((detection_hashable fmt str_of p b L' = detection_hashable fmt str_of p b L)
            = (concat (sort (map str_of L')) = concat (sort (map str_of L))))"
proof (intro conjI impI)
  from assms show "(detection_hashable fmt str_of p' b L = detection_hashable fmt str_of p b L) = (p' = p)"
    by (simp add: detection_hashable_eq)
next
  from assms show "(detection_hashable fmt str_of p b L' = detection_hashable fmt str_of p b L)
           = (concat (sort (map str_of L')) = concat (sort (map str_of L)))"
    by (simp add: detection_hashable_eq)
next
  let ?cs = "min_vertex b @ max_vertex b"
  assume "i < 4 \<and> min_vertex b' @ max_vertex b' = ?cs[i := c]"
  then have i: "i < 4" and b': "min_vertex b' @ max_vertex b' = ?cs[i := c]"
    by simp_all
  from assms b' have "4 \<le> length (min_vertex b' @ max_vertex b')" by simp
  with assms b' concat_map_take4_update [OF assms i, of fmt c]
  show "(detection_hashable fmt str_of p b' L = detection_hashable fmt str_of p b L)
           = (fmt c = fmt (?cs ! i))"
    by (simp only: detection_hashable_eq if_True sum.inject same_append_eq append_same_eq)
qed

theorem detection_hashable_sensitivity_witness:
  "4 \<le> length (min_vertex \<lparr>min_vertex = [0 :: int, 0], max_vertex = [10, 10]\<rparr>
               @ max_vertex \<lparr>min_vertex = [0 :: int, 0], max_vertex = [10, 10]\<rparr>) \<and>
   detection_hashable str_int (\<lambda>l. l) (py ''abc124'')
     \<lparr>min_vertex = [0, 0], max_vertex = [10, 10]\<rparr> [py ''cat''] \<noteq>
   detection_hashable str_int (\<lambda>l. l) (py ''abc123'')
     \<lparr>min_vertex = [0, 0], max_vertex = [10, 10]\<rparr> [py ''cat''] \<and>
   detection_hashable str_int (\<lambda>l. l) (py ''abc123'')
     \<lparr>min_vertex = [0, 0], max_vertex = [11, 10]\<rparr> [py ''cat''] \<noteq>
   detection_hashable str_int (\<lambda>l. l) (py ''abc123'')
     \<lparr>min_vertex = [0, 0], max_vertex = [10, 10]\<rparr> [py ''cat''] \<and>
   detection_hashable str_int (\<lambda>l. l) (py ''abc123'')
     \<lparr>min_vertex = [0, 0], max_vertex = [10, 10]\<rparr> [py ''dog''] \<noteq>
   detection_hashable str_int (\<lambda>l. l) (py ''abc123'')
     \<lparr>min_vertex = [0, 0], max_vertex = [10, 10]\<rparr> [py ''cat'']"
  using detection_hashable_sensitivity
    [where b = "\<lparr>min_vertex = [0, 0], max_vertex = [10, 10]\<rparr>" and p = "py ''abc123''"
       and p' = "py ''abc124''" and fmt = str_int and str_of = "\<lambda>l. l"
       and L = "[py ''cat'']" and L' = "[py ''dog'']" and i = 2 and c = 11
       and b' = "\<lparr>min_vertex = [0, 0], max_vertex = [11, 10]\<rparr>"]
  by (simp add: py_def str_int_def str_nat.simps)

text \<open>
  C6 as stated fails: the label sets \<open>{'ab'}\<close> and \<open>{'a', 'b'}\<close> differ and give, with
  the same provenance string and bounding box, the same string to hash and so the
  same identifier.
\<close>

theorem labels_collide:
  "set [py ''ab''] \<noteq> set [py ''a'', py ''b''] \<and>
   detection_hashable str_int (\<lambda>l. l) (py ''abc123'')
     \<lparr>min_vertex = [0, 0], max_vertex = [10, 10]\<rparr> [py ''ab''] =
   detection_hashable str_int (\<lambda>l. l) (py ''abc123'')
     \<lparr>min_vertex = [0, 0], max_vertex = [10, 10]\<rparr> [py ''a'', py ''b''] \<and>
   gen_detection_uuid str_int (\<lambda>l. l) (py ''abc123'')
     \<lparr>min_vertex = [0, 0], max_vertex = [10, 10]\<rparr> [py ''ab''] =
   gen_detection_uuid str_int (\<lambda>l. l) (py ''abc123'')
     \<lparr>min_vertex = [0, 0], max_vertex = [10, 10]\<rparr> [py ''a'', py ''b'']"
proof -
  have sets: "set [py ''ab''] \<noteq> set [py ''a'', py ''b'']"
    by (simp add: py_def)
  have "concat (sort [py ''ab'']) = concat (sort [py ''a'', py ''b''])"
    by (simp add: py_def)
  then have h: "detection_hashable str_int (\<lambda>l. l) (py ''abc123'')
       \<lparr>min_vertex = [0, 0], max_vertex = [10, 10]\<rparr> [py ''ab''] =
     detection_hashable str_int (\<lambda>l. l) (py ''abc123'')
       \<lparr>min_vertex = [0, 0], max_vertex = [10, 10]\<rparr> [py ''a'', py ''b'']"
    by (simp add: detection_hashable_eq)
  from sets h show ?thesis by (simp only: gen_detection_uuid_def simp_thms)
qed

section \<open>Properties of \<open>detect_objects\<close>\<close>

lemma list_gen_Created:
  assumes "is_valid_element det d" and "u_detect_objects det d = Some dets"
  shows "list_gen fmt str_of det (Created d, tr) =
         list_gen fmt str_of det (Suspended (uuid d) dets, tr @ [RawDetection d])"
proof -
  from assms have "gen_next fmt str_of det (Created d, tr) =
      gen_next fmt str_of det (Suspended (uuid d) dets, tr @ [RawDetection d])"
    by (simp add: raise_valid_element_def)
  then show ?thesis
    by (simp only: list_gen.simps [of _ _ _ "Created d"]
        list_gen.simps [of _ _ _ "Suspended (uuid d) dets"])
qed

lemma list_gen_Nil: "list_gen fmt str_of det (Suspended u [], tr) = (Inr [], tr)"
  by (simp add: list_gen.simps)

lemma list_gen_Cons_Inl:
  assumes "gen_detection_uuid fmt str_of u b (keys m) = Inl e"
  shows "list_gen fmt str_of det (Suspended u ((b, m) # dets), tr) = (Inl e, tr)"
  using assms by (simp add: list_gen.simps [of _ _ _ "Suspended u ((b, m) # dets)"])

lemma list_gen_Cons_Inr:
  assumes "gen_detection_uuid fmt str_of u b (keys m) = Inr i"
  shows "list_gen fmt str_of det (Suspended u ((b, m) # dets), tr) =
     (case list_gen fmt str_of det
             (Suspended u dets, tr @ [NewClassification type_str i, NewDetection i]) of
        (Inl e, tr') \<Rightarrow> (Inl e, tr')
      | (Inr des, tr') \<Rightarrow>
          (Inr (set_detection (new_detection i) b
                  (set_classification (new_classification type_str i) m) # des), tr'))"
  using assms by (simp add: list_gen.simps [of _ _ _ "Suspended u ((b, m) # dets)"] Let_def)

lemma list_gen_Suspended_assembled:
  assumes "encodable u" and "list_all (\<lambda>(b, m). identifiable fmt str_of b (keys m)) dets"
  shows "\<exists>des tr'. list_gen fmt str_of det (Suspended u dets, tr) = (Inr des, tr') \<and>
           list_all2 (assembled fmt str_of u) dets des"
  using assms(2)
proof (induction dets arbitrary: tr)
  case Nil
  show ?case by (simp add: list_gen_Nil)
next
  case (Cons x dets)
  obtain b m where x: "x = (b, m)" by (cases x)
  from Cons.prems x have "identifiable fmt str_of b (keys m)" by simp
  with assms(1) obtain i where i: "gen_detection_uuid fmt str_of u b (keys m) = Inr i"
    using gen_detection_uuid_identifiable by blast
  from Cons.prems have "list_all (\<lambda>(b, m). identifiable fmt str_of b (keys m)) dets" by simp
  from Cons.IH [OF this]
  obtain des tr' where
    rest: "list_gen fmt str_of det
             (Suspended u dets, tr @ [NewClassification type_str i, NewDetection i]) = (Inr des, tr')"
    and all: "list_all2 (assembled fmt str_of u) dets des"
    by blast
  let ?de = "set_detection (new_detection i) b (set_classification (new_classification type_str i) m)"
  have "list_gen fmt str_of det (Suspended u (x # dets), tr) = (Inr (?de # des), tr')"
    by (simp add: x list_gen_Cons_Inr [OF i] rest)
  moreover have "assembled fmt str_of u x ?de"
    by (simp add: assembled_def x i set_detection_def new_detection_def set_classification_def
        new_classification_def type_str_def)
  ultimately show ?case using all by simp
qed

lemma yielded_Created:
  assumes "is_valid_element det d" and "u_detect_objects det d = Some dets"
  shows "yielded fmt str_of det (Created d, tr) =
         yielded fmt str_of det (Suspended (uuid d) dets, tr @ [RawDetection d])"
proof -
  from assms have "gen_next fmt str_of det (Created d, tr) =
      gen_next fmt str_of det (Suspended (uuid d) dets, tr @ [RawDetection d])"
    by (simp add: raise_valid_element_def)
  then show ?thesis
    by (simp only: yielded.simps [of _ _ _ "Created d"]
        yielded.simps [of _ _ _ "Suspended (uuid d) dets"])
qed

lemma yielded_Nil: "yielded fmt str_of det (Suspended u [], tr) = []"
  by (simp add: yielded.simps)

lemma yielded_Cons_Inl:
  assumes "gen_detection_uuid fmt str_of u b (keys m) = Inl e"
  shows "yielded fmt str_of det (Suspended u ((b, m) # dets), tr) = []"
  using assms by (simp add: yielded.simps [of _ _ _ "Suspended u ((b, m) # dets)"])

lemma yielded_Cons_Inr:
  assumes "gen_detection_uuid fmt str_of u b (keys m) = Inr i"
  shows "yielded fmt str_of det (Suspended u ((b, m) # dets), tr) =
     set_detection (new_detection i) b (set_classification (new_classification type_str i) m)
       # yielded fmt str_of det
           (Suspended u dets, tr @ [NewClassification type_str i, NewDetection i])"
  using assms by (simp add: yielded.simps [of _ _ _ "Suspended u ((b, m) # dets)"] Let_def)

lemma yielded_uuid:
  assumes "k < length (yielded fmt str_of det (Suspended u dets, tr))"
  shows "k < length dets \<and>
         gen_detection_uuid fmt str_of u (fst (dets ! k)) (keys (snd (dets ! k))) =
           Inr (detection_uuid (yielded fmt str_of det (Suspended u dets, tr) ! k))"
  using assms
proof (induction dets arbitrary: k tr)
  case Nil
  then show ?case by (simp add: yielded_Nil)
next
  case (Cons x dets)
  obtain b m where x: "x = (b, m)" by (cases x)
  show ?case
  proof (cases "gen_detection_uuid fmt str_of u b (keys m)")
    case (Inl e)
    with Cons.prems x show ?thesis by (simp add: yielded_Cons_Inl)
  next
    case (Inr i)
    let ?t = "tr @ [NewClassification type_str i, NewDetection i]"
    note y = yielded_Cons_Inr [OF Inr, of det dets tr]
    show ?thesis
    proof (cases k)
      case 0
      with Inr show ?thesis
        by (simp add: x y set_detection_def new_detection_def)
    next
      case (Suc k')
      with Cons.prems x y have "k' < length (yielded fmt str_of det (Suspended u dets, ?t))"
        by simp
      from Cons.IH [OF this] Suc show ?thesis by (simp add: x y)
    qed
  qed
qed

lemma yielded_progress:
  assumes "encodable u" and "k < length dets"
    and "list_all (\<lambda>(b, m). identifiable fmt str_of b (keys m)) (take (Suc k) dets)"
  shows "k < length (yielded fmt str_of det (Suspended u dets, tr))"
  using assms(2,3)
proof (induction dets arbitrary: k tr)
  case Nil
  then show ?case by simp
next
  case (Cons x dets)
  obtain b m where x: "x = (b, m)" by (cases x)
  from Cons.prems(2) x have "identifiable fmt str_of b (keys m)" by simp
  with assms(1) obtain i where i: "gen_detection_uuid fmt str_of u b (keys m) = Inr i"
    using gen_detection_uuid_identifiable by blast
  note y = yielded_Cons_Inr [OF i, of det dets tr]
  show ?case
  proof (cases k)
    case 0
    then show ?thesis by (simp add: x y)
  next
    case (Suc k')
    with Cons.prems have "k' < length dets"
      and "list_all (\<lambda>(b, m). identifiable fmt str_of b (keys m)) (take (Suc k') dets)"
      by simp_all
    from Cons.IH [OF this] Suc show ?thesis by (simp add: x y)
  qed
qed

text \<open>When the iteration ends without an exception, the elements received are the list.\<close>

lemma yielded_list_gen:
  "list_gen fmt str_of det (g, tr) = (Inr des, tr') \<Longrightarrow> yielded fmt str_of det (g, tr) = des"
proof (induction fmt str_of det "(g, tr)" arbitrary: g tr des tr' rule: list_gen.induct)
  case (1 fmt str_of det g tr)
  obtain r g1 t1 where step: "gen_next fmt str_of det (g, tr) = (r, g1, t1)"
    by (cases "gen_next fmt str_of det (g, tr)")
  show ?case
  proof (cases r)
    case (Yield de)
    obtain r2 t2 where rest: "list_gen fmt str_of det (g1, t1) = (r2, t2)"
      by (cases "list_gen fmt str_of det (g1, t1)")
    from "1.prems" step Yield rest obtain des2 where r2: "r2 = Inr des2" and des: "des = de # des2"
      by (cases r2) (simp_all add: list_gen.simps [of _ _ _ g tr])
    from rest r2 have "list_gen fmt str_of det (g1, t1) = (Inr des2, t2)" by simp
    from "1.hyps" [OF step [symmetric] Yield refl this]
    have "yielded fmt str_of det (g1, t1) = des2" .
    with step Yield des show ?thesis
      by (simp add: yielded.simps [of _ _ _ g tr])
  next
    case StopIteration
    with "1.prems" step show ?thesis
      by (simp add: yielded.simps [of _ _ _ g tr] list_gen.simps [of _ _ _ g tr])
  next
    case (Raise e)
    with "1.prems" step show ?thesis
      by (simp add: list_gen.simps [of _ _ _ g tr])
  qed
qed

text \<open>
  C1, what the code does. When the data element is accepted and \<open>_detect_objects\<close>
  returns \<open>None\<close>, the call of \<open>detect_objects\<close> returns a generator object, not
  \<open>None\<close>; the first \<open>next\<close> on it calls \<open>_detect_objects\<close>, reaches \<open>return None\<close>
  and ends the iteration, so the caller sees an empty sequence. No factory is called.
\<close>

theorem detect_objects_none_is_empty_iteration:
  assumes "is_valid_element det d" and "u_detect_objects det d = None"
  shows "detect_objects det d = Inr (Some (Created d)) \<and>
         detect_objects det d \<noteq> Inr None \<and>
         gen_next fmt str_of det (Created d, tr) = (StopIteration, Finished, tr @ [RawDetection d]) \<and>
         list_gen fmt str_of det (Created d, tr) = (Inr [], tr @ [RawDetection d])"
  using assms
  by (simp add: detect_objects_def raise_valid_element_def list_gen.simps [of _ _ _ "Created d"])

theorem detect_objects_none_is_empty_iteration_witness:
  "detect_objects
     \<lparr>valid_content_types = {py ''image/png''},
      is_valid_element = content_type_is_valid {py ''image/png''},
      u_detect_objects = (\<lambda>d. None :: (int, pystr, real) raw_detection list option)\<rparr>
     \<lparr>content_type = py ''image/png'', uuid = py ''abc123''\<rparr> \<noteq> Inr None \<and>
   list_gen str_int (\<lambda>l. l)
     \<lparr>valid_content_types = {py ''image/png''},
      is_valid_element = content_type_is_valid {py ''image/png''},
      u_detect_objects = (\<lambda>d. None :: (int, pystr, real) raw_detection list option)\<rparr>
     (Created \<lparr>content_type = py ''image/png'', uuid = py ''abc123''\<rparr>, []) =
   (Inr [], [RawDetection \<lparr>content_type = py ''image/png'', uuid = py ''abc123''\<rparr>])"
  using detect_objects_none_is_empty_iteration
    [where det = "\<lparr>valid_content_types = {py ''image/png''},
        is_valid_element = content_type_is_valid {py ''image/png''},
        u_detect_objects = (\<lambda>d. None :: (int, pystr, real) raw_detection list option)\<rparr>"
       and d = "\<lparr>content_type = py ''image/png'', uuid = py ''abc123''\<rparr>"
       and fmt = str_int and str_of = "\<lambda>l. l" and tr = "[]"]
  by (simp add: content_type_is_valid_def)

text \<open>
  C2, what the code does. For a data element that the detector does not accept
  (\<open>is_valid_element\<close> is false: with the validator of \<open>ContentTypeValidator\<close>, its
  content type is not in \<open>valid_content_types\<close>), the call of \<open>detect_objects\<close> does
  not raise: it returns a generator object, and \<open>ValueError\<close> is raised by the first
  \<open>next\<close> on it. \<open>_detect_objects\<close> is not invoked and no factory is called.
\<close>

theorem detect_objects_invalid_raises_on_first_next:
  assumes "\<not> is_valid_element det d"
  shows "detect_objects det d = Inr (Some (Created d)) \<and>
         gen_next fmt str_of det (Created d, tr) = (Raise ValueError, Finished, tr) \<and>
         list_gen fmt str_of det (Created d, tr) = (Inl ValueError, tr)"
  using assms
  by (simp add: detect_objects_def raise_valid_element_def list_gen.simps [of _ _ _ "Created d"])

theorem detect_objects_invalid_raises_on_first_next_witness:
  "py ''text/plain'' \<notin> {py ''image/png''} \<and>
   gen_next str_int (\<lambda>l. l)
     \<lparr>valid_content_types = {py ''image/png''},
      is_valid_element = content_type_is_valid {py ''image/png''},
      u_detect_objects = (\<lambda>d. Some ([] :: (int, pystr, real) raw_detection list))\<rparr>
     (Created \<lparr>content_type = py ''text/plain'', uuid = py ''abc123''\<rparr>, []) =
   (Raise ValueError, Finished, [])"
  using detect_objects_invalid_raises_on_first_next
    [where det = "\<lparr>valid_content_types = {py ''image/png''},
        is_valid_element = content_type_is_valid {py ''image/png''},
        u_detect_objects = (\<lambda>d. Some ([] :: (int, pystr, real) raw_detection list))\<rparr>"
       and d = "\<lparr>content_type = py ''text/plain'', uuid = py ''abc123''\<rparr>"
       and fmt = str_int and str_of = "\<lambda>l. l" and tr = "[]"]
  by (simp add: content_type_is_valid_def py_def)

text \<open>
  A detector that accepts \<open>image/png\<close> only and a data element of content type
  \<open>text/plain\<close>: the detector does not accept the element, and the call returns
  without raising.
\<close>

theorem detect_objects_invalid_call_returns:
  "\<not> is_valid_element
       \<lparr>valid_content_types = {py ''image/png''},
        is_valid_element = content_type_is_valid {py ''image/png''},
        u_detect_objects = (\<lambda>d. Some ([] :: (int, pystr, real) raw_detection list))\<rparr>
       \<lparr>content_type = py ''text/plain'', uuid = py ''abc123''\<rparr> \<and>
   detect_objects
     \<lparr>valid_content_types = {py ''image/png''},
      is_valid_element = content_type_is_valid {py ''image/png''},
      u_detect_objects = (\<lambda>d. Some ([] :: (int, pystr, real) raw_detection list))\<rparr>
     \<lparr>content_type = py ''text/plain'', uuid = py ''abc123''\<rparr> \<noteq> Inl ValueError"
  by (simp add: detect_objects_def content_type_is_valid_def py_def)

text \<open>
  C7, as amended. When the data element is accepted, its provenance string is
  encodable and \<open>_detect_objects\<close> yields pairs from each of which an identifier can
  be derived (boxes of dimensionality at least 2, encodable coordinate and label
  strings), iterating \<open>detect_objects\<close> to its end yields exactly one detection
  element per pair, in the same order; each holds the bounding box of its pair and a
  classification element whose map is the classification map of the pair, whose
  identifier is that of the detection element, the one \<open>_gen_detection_uuid\<close> derives,
  and whose type tag is \<open>'object detection classification'\<close>.
\<close>

theorem detect_objects_assembles:
  assumes "is_valid_element det d" and "u_detect_objects det d = Some dets"
    and "encodable (uuid d)"
    and "list_all (\<lambda>(b, m). identifiable fmt str_of b (keys m)) dets"
  shows "detect_objects det d = Inr (Some (Created d)) \<and>
         (\<exists>des tr'. list_gen fmt str_of det (Created d, tr) = (Inr des, tr') \<and>
            list_all2 (assembled fmt str_of (uuid d)) dets des)"
proof -
  from list_gen_Suspended_assembled [OF assms(3,4)]
  obtain des tr' where
    "list_gen fmt str_of det (Suspended (uuid d) dets, tr @ [RawDetection d]) = (Inr des, tr')"
    and "list_all2 (assembled fmt str_of (uuid d)) dets des"
    by blast
  with list_gen_Created [OF assms(1,2), of fmt str_of tr] show ?thesis
    by (simp add: detect_objects_def)
qed

theorem detect_objects_assembles_witness:
  "\<exists>des tr'.
     list_gen str_int (\<lambda>l. l)
       \<lparr>valid_content_types = {py ''image/png''},
        is_valid_element = content_type_is_valid {py ''image/png''},
        u_detect_objects = (\<lambda>d. Some
          [(\<lparr>min_vertex = [0, 0], max_vertex = [10, 10]\<rparr>,
            [(py ''cat'', 9 / 10 :: real), (py ''dog'', 1 / 10)])])\<rparr>
       (Created \<lparr>content_type = py ''image/png'', uuid = py ''abc123''\<rparr>, []) = (Inr des, tr') \<and>
     list_all2 (assembled str_int (\<lambda>l. l) (py ''abc123''))
       [(\<lparr>min_vertex = [0, 0], max_vertex = [10, 10]\<rparr>,
         [(py ''cat'', 9 / 10 :: real), (py ''dog'', 1 / 10)])] des"
  using detect_objects_assembles
    [where det = "\<lparr>valid_content_types = {py ''image/png''},
        is_valid_element = content_type_is_valid {py ''image/png''},
        u_detect_objects = (\<lambda>d. Some
          [(\<lparr>min_vertex = [0, 0], max_vertex = [10, 10]\<rparr>,
            [(py ''cat'', 9 / 10 :: real), (py ''dog'', 1 / 10)])])\<rparr>"
       and d = "\<lparr>content_type = py ''image/png'', uuid = py ''abc123''\<rparr>"
       and dets = "[(\<lparr>min_vertex = [0, 0], max_vertex = [10, 10]\<rparr>,
            [(py ''cat'', 9 / 10 :: real), (py ''dog'', 1 / 10)])]"
       and fmt = str_int and str_of = "\<lambda>l. l" and tr = "[]"]
  by (simp add: content_type_is_valid_def identifiable_def keys_def encodable_def py_def
      str_int_def str_nat.simps is_surrogate_def)

text \<open>
  C7 as stated fails: when \<open>_detect_objects\<close> yields a pair whose bounding box has
  dimensionality 1, the iteration raises \<open>IndexError\<close> and yields no detection element
  for the pair.
\<close>

theorem detect_objects_1d_raises:
  "list_gen str_int (\<lambda>l. l)
     \<lparr>valid_content_types = {py ''image/png''},
      is_valid_element = content_type_is_valid {py ''image/png''},
      u_detect_objects = (\<lambda>d. Some
        [(\<lparr>min_vertex = [0], max_vertex = [10]\<rparr>, [(py ''cat'', 9 / 10 :: real)])])\<rparr>
     (Created \<lparr>content_type = py ''image/png'', uuid = py ''abc123''\<rparr>, []) =
   (Inl IndexError, [RawDetection \<lparr>content_type = py ''image/png'', uuid = py ''abc123''\<rparr>])"
proof -
  have "gen_detection_uuid str_int (\<lambda>l. l) (py ''abc123'')
          \<lparr>min_vertex = [0], max_vertex = [10]\<rparr> (keys [(py ''cat'', 9 / 10 :: real)])
        = Inl IndexError"
    by (simp add: gen_detection_uuid_def detection_hashable_eq)
  then show ?thesis
    by (simp add: list_gen_Created [where dets =
          "[(\<lparr>min_vertex = [0], max_vertex = [10]\<rparr>, [(py ''cat'', 9 / 10 :: real)])]"]
        list_gen_Cons_Inl content_type_is_valid_def)
qed

text \<open>
  C8. The identifier of a yielded detection element is a function of the provenance
  string of the data, the bounding box and the set of keys of the classification map
  only. Take the element yielded at any position \<open>i\<close> of one iteration and the element
  yielded at any position \<open>j\<close> of the same or of another iteration: when the data have
  the same provenance string and the two raw detections have the same bounding box
  and the same set of keys (the keys of a dictionary are distinct), the two elements
  have the same identifier, whatever the probabilities are. And an element is yielded
  at position \<open>i\<close> whenever the provenance string is encodable and an identifier can
  be derived from each raw detection up to position \<open>i\<close>.
\<close>

theorem detection_uuid_function_of_provenance_box_keys:
  assumes "is_valid_element det d" and "u_detect_objects det d = Some dets"
    and "is_valid_element det' d'" and "u_detect_objects det' d' = Some dets'"
    and "uuid d' = uuid d"
    and "fst (dets' ! j) = fst (dets ! i)"
    and "distinct (keys (snd (dets ! i)))" and "distinct (keys (snd (dets' ! j)))"
    and "set (keys (snd (dets' ! j))) = set (keys (snd (dets ! i)))"
  shows "(i < length (yielded fmt str_of det (Created d, tr)) \<and>
          j < length (yielded fmt str_of det' (Created d', tr')) \<longrightarrow>
            detection_uuid (yielded fmt str_of det' (Created d', tr') ! j) =
            detection_uuid (yielded fmt str_of det (Created d, tr) ! i)) \<and>
         (encodable (uuid d) \<and> i < length dets \<and>
          list_all (\<lambda>(b, m). identifiable fmt str_of b (keys m)) (take (Suc i) dets) \<longrightarrow>
            i < length (yielded fmt str_of det (Created d, tr)))"
proof (intro conjI impI)
  let ?Y = "yielded fmt str_of det (Created d, tr)"
  let ?Y' = "yielded fmt str_of det' (Created d', tr')"
  have Y: "?Y = yielded fmt str_of det (Suspended (uuid d) dets, tr @ [RawDetection d])"
    using assms(1,2) by (rule yielded_Created)
  have Y': "?Y' = yielded fmt str_of det' (Suspended (uuid d) dets', tr' @ [RawDetection d'])"
    using yielded_Created [OF assms(3,4), of fmt str_of tr'] assms(5) by simp
  {
    assume "i < length ?Y \<and> j < length ?Y'"
    then have i: "i < length ?Y" and j: "j < length ?Y'" by simp_all
    from i have "gen_detection_uuid fmt str_of (uuid d) (fst (dets ! i)) (keys (snd (dets ! i)))
        = Inr (detection_uuid (?Y ! i))"
      unfolding Y by (rule yielded_uuid [THEN conjunct2])
    moreover from j have "gen_detection_uuid fmt str_of (uuid d) (fst (dets' ! j))
        (keys (snd (dets' ! j))) = Inr (detection_uuid (?Y' ! j))"
      unfolding Y' by (rule yielded_uuid [THEN conjunct2])
    moreover from assms(7,8,9) have "mset (keys (snd (dets' ! j))) = mset (keys (snd (dets ! i)))"
      by (simp only: set_eq_iff_mset_eq_distinct)
    then have "gen_detection_uuid fmt str_of (uuid d) (fst (dets ! i)) (keys (snd (dets' ! j)))
        = gen_detection_uuid fmt str_of (uuid d) (fst (dets ! i)) (keys (snd (dets ! i)))"
      by (rule gen_detection_uuid_mset)
    ultimately show "detection_uuid (?Y' ! j) = detection_uuid (?Y ! i)"
      using assms(6) by simp
  }
  {
    assume "encodable (uuid d) \<and> i < length dets \<and>
      list_all (\<lambda>(b, m). identifiable fmt str_of b (keys m)) (take (Suc i) dets)"
    then have "encodable (uuid d)" and "i < length dets"
      and "list_all (\<lambda>(b, m). identifiable fmt str_of b (keys m)) (take (Suc i) dets)"
      by simp_all
    then show "i < length ?Y"
      unfolding Y by (rule yielded_progress)
  }
qed

theorem detection_uuid_function_of_provenance_box_keys_witness:
  "1 < length (yielded str_int (\<lambda>l. l)
         \<lparr>valid_content_types = {py ''image/png''},
          is_valid_element = content_type_is_valid {py ''image/png''},
          u_detect_objects = (\<lambda>d. Some
            [(\<lparr>min_vertex = [0, 0], max_vertex = [10, 10]\<rparr>,
              [(py ''cat'', 9 / 10 :: real), (py ''dog'', 1 / 10)]),
             (\<lparr>min_vertex = [0, 0], max_vertex = [10, 10]\<rparr>,
              [(py ''dog'', 1 / 2), (py ''cat'', 1 / 2)])])\<rparr>
         (Created \<lparr>content_type = py ''image/png'', uuid = py ''abc123''\<rparr>, [])) \<and>
   detection_uuid (yielded str_int (\<lambda>l. l)
         \<lparr>valid_content_types = {py ''image/png''},
          is_valid_element = content_type_is_valid {py ''image/png''},
          u_detect_objects = (\<lambda>d. Some
            [(\<lparr>min_vertex = [0, 0], max_vertex = [10, 10]\<rparr>,
              [(py ''cat'', 9 / 10 :: real), (py ''dog'', 1 / 10)]),
             (\<lparr>min_vertex = [0, 0], max_vertex = [10, 10]\<rparr>,
              [(py ''dog'', 1 / 2), (py ''cat'', 1 / 2)])])\<rparr>
         (Created \<lparr>content_type = py ''image/png'', uuid = py ''abc123''\<rparr>, []) ! 1) =
   detection_uuid (yielded str_int (\<lambda>l. l)
         \<lparr>valid_content_types = {py ''image/png''},
          is_valid_element = content_type_is_valid {py ''image/png''},
          u_detect_objects = (\<lambda>d. Some
            [(\<lparr>min_vertex = [0, 0], max_vertex = [10, 10]\<rparr>,
              [(py ''cat'', 9 / 10 :: real), (py ''dog'', 1 / 10)]),
             (\<lparr>min_vertex = [0, 0], max_vertex = [10, 10]\<rparr>,
              [(py ''dog'', 1 / 2), (py ''cat'', 1 / 2)])])\<rparr>
         (Created \<lparr>content_type = py ''image/png'', uuid = py ''abc123''\<rparr>, []) ! 0)"
proof -
  let ?dets = "[(\<lparr>min_vertex = [0 :: int, 0], max_vertex = [10, 10]\<rparr>,
                 [(py ''cat'', 9 / 10 :: real), (py ''dog'', 1 / 10)]),
                (\<lparr>min_vertex = [0, 0], max_vertex = [10, 10]\<rparr>,
                 [(py ''dog'', 1 / 2), (py ''cat'', 1 / 2)])]"
  let ?det = "\<lparr>valid_content_types = {py ''image/png''},
               is_valid_element = content_type_is_valid {py ''image/png''},
               u_detect_objects = (\<lambda>d. Some ?dets)\<rparr>"
  let ?d = "\<lparr>content_type = py ''image/png'', uuid = py ''abc123''\<rparr>"
  let ?Y = "yielded str_int (\<lambda>l. l) ?det (Created ?d, [])"
  have valid: "is_valid_element ?det ?d"
    by (simp add: content_type_is_valid_def)
  have raw: "u_detect_objects ?det ?d = Some ?dets"
    by simp
  have keys: "distinct (keys (snd (?dets ! 0)))" "distinct (keys (snd (?dets ! 1)))"
    "set (keys (snd (?dets ! 1))) = set (keys (snd (?dets ! 0)))"
    by (auto simp: keys_def py_def)
  have box: "fst (?dets ! 1) = fst (?dets ! 0)"
    by simp
  have ok: "encodable (uuid ?d) \<and> 1 < length ?dets \<and>
      list_all (\<lambda>(b, m). identifiable str_int (\<lambda>l. l) b (keys m)) (take (Suc 1) ?dets)"
    by (simp add: identifiable_def keys_def encodable_def py_def str_int_def str_nat.simps
        is_surrogate_def)
  from detection_uuid_function_of_provenance_box_keys
         [OF valid raw valid raw refl box [symmetric] keys(2) keys(1) keys(3) [symmetric],
          of str_int "\<lambda>l. l" "[]" "[]"] ok
  have one: "1 < length ?Y"
    by blast
  then have "0 < length ?Y \<and> 1 < length ?Y"
    by arith
  with detection_uuid_function_of_provenance_box_keys
         [OF valid raw valid raw refl box keys(1) keys(2) keys(3),
          of str_int "\<lambda>l. l" "[]" "[]"]
  have "detection_uuid (?Y ! 1) = detection_uuid (?Y ! 0)"
    by blast
  with one show ?thesis by (simp only: simp_thms)
qed

section \<open>Properties of \<open>ImageMatrixObjectDetector\<close>\<close>

lemma dict_get_dict_set:
  "dict_get (dict_set d k v) k' = (if k' = k then Some v else dict_get d k')"
  by (induction d) auto

text \<open>
  C9. \<open>_detect_objects\<close> of the image-matrix detector returns \<open>None\<close> exactly when
  \<open>load_as_matrix\<close> of its image reader returns \<open>None\<close> for the data element, and
  otherwise what \<open>_detect_objects_matrix\<close> returns for the matrix that was loaded;
  \<open>valid_content_types\<close> and \<open>is_valid_element\<close> give what the image reader gives.
\<close>

theorem im_detect_objects_delegates:
  "(im_detect_objects self data = None) = (load_as_matrix (image_reader self) data = None) \<and>
   (\<forall>mat. load_as_matrix (image_reader self) data = Some mat \<longrightarrow>
      im_detect_objects self data = Some (u_detect_objects_matrix self mat)) \<and>
   im_valid_content_types self = reader_valid_content_types (image_reader self) \<and>
   im_is_valid_element self data = reader_is_valid_element (image_reader self) data"
  by (simp add: im_detect_objects_def im_valid_content_types_def im_is_valid_element_def
      split: option.splits)

theorem im_detect_objects_delegates_witness:
  "im_detect_objects
     \<lparr>image_reader =
        \<lparr>reader_valid_content_types = {py ''image/png''},
         reader_is_valid_element = content_type_is_valid {py ''image/png''},
         load_as_matrix = (\<lambda>d. if uuid d = py ''abc123'' then Some [[1, 2], [3, 4 :: nat]] else None)\<rparr>,
      u_detect_objects_matrix =
        (\<lambda>mat. [(\<lparr>min_vertex = [0, 0], max_vertex = [int (length mat), 2]\<rparr>,
                  [(py ''cat'', 1 :: real)])])\<rparr>
     \<lparr>content_type = py ''image/png'', uuid = py ''abc123''\<rparr> =
   Some [(\<lparr>min_vertex = [0, 0], max_vertex = [2, 2]\<rparr>, [(py ''cat'', 1)])]"
  using im_detect_objects_delegates
    [where self = "\<lparr>image_reader =
        \<lparr>reader_valid_content_types = {py ''image/png''},
         reader_is_valid_element = content_type_is_valid {py ''image/png''},
         load_as_matrix = (\<lambda>d. if uuid d = py ''abc123'' then Some [[1, 2], [3, 4 :: nat]] else None)\<rparr>,
      u_detect_objects_matrix =
        (\<lambda>mat. [(\<lparr>min_vertex = [0, 0], max_vertex = [int (length mat), 2]\<rparr>,
                  [(py ''cat'', 1 :: real)])])\<rparr>"
       and data = "\<lparr>content_type = py ''image/png'', uuid = py ''abc123''\<rparr>"]
  by simp

text \<open>
  C10. \<open>from_config\<close> writes to no dictionary that existed before the call: it copies
  the caller's dictionary into a new one and puts the reader it constructs under
  \<open>'image_reader'\<close> there. After the call every dictionary of the store before the call,
  the caller's among them, has the entries it had, and the new dictionary has the
  caller's entries under every other key.
\<close>

theorem from_config_keeps_caller_dict:
  assumes "config_dict < length s" and "a < length s"
  shows "fst (from_config from_config_dict super_from_config s config_dict merge_default) ! a = s ! a \<and>
         (\<forall>k. k \<noteq> py ''image_reader'' \<longrightarrow>
            dict_get (fst (from_config from_config_dict super_from_config s config_dict
                             merge_default) ! length s) k
              = dict_get (s ! config_dict) k)"
  using assms
  by (simp add: from_config_def alloc_def Let_def nth_append dict_get_dict_set
      split: sum.splits option.splits)

theorem from_config_keeps_caller_dict_witness:
  "fst (from_config (\<lambda>s v. Inr (7 :: nat)) (\<lambda>s a m. Inr a)
          [[(py ''image_reader'', Ref 1), (py ''threshold'', Other (5 :: int))],
           [(py ''type'', Other 0)]] 0 True) ! 0 =
   [(py ''image_reader'', Ref 1), (py ''threshold'', Other 5)]"
  using from_config_keeps_caller_dict
    [where s = "[[(py ''image_reader'', Ref 1), (py ''threshold'', Other (5 :: int))],
                 [(py ''type'', Other 0)]]"
       and config_dict = 0 and a = 0 and from_config_dict = "\<lambda>s v. Inr (7 :: nat)"
       and super_from_config = "\<lambda>s a m. Inr a" and merge_default = True]
  by simp

end
